theory Spec2Isabelle
  imports Complex_Main "HOL-Library.Word"
begin

chapter \<open>Alpaca WebUI: chat input, settings form, model list and document upload\<close>

text \<open>
  A shallow embedding of the TypeScript sources. JavaScript strings are modelled as
  \<^typ>\<open>string\<close>; every character the sources compare against is ASCII. Callbacks,
  notifications, timers and network calls are recorded as effect traces, in the order in
  which the code issues them.
\<close>

section \<open>Chat input (components/chat-input)\<close>

text \<open>
  \<^verbatim>\<open>String.prototype.trim\<close> strips white space and line terminators from both ends.
  Within the range of \<^typ>\<open>char\<close> these are TAB, LF, VT, FF, CR, SP and NBSP.
\<close>

definition isWhiteSpace :: "char \<Rightarrow> bool" where
  "isWhiteSpace c =
     (c \<in> set [CHR 0x09, CHR 0x0A, CHR 0x0B, CHR 0x0C, CHR 0x0D, CHR 0x20, CHR 0xA0])"

definition trim :: "string \<Rightarrow> string" where
  "trim s = rev (dropWhile isWhiteSpace (rev (dropWhile isWhiteSpace s)))"

record ChatInputProps =
  isStreamProcessing :: bool
  isFetchLoading :: bool
  isLlmModelActive :: bool

record KeyboardEvent =
  key :: string
  shiftKey :: bool

datatype chat_effect = OnSendInput string | PreventDefault

text \<open>
  The component state is the \<open>chatInput\<close> string. Each handler returns the new state and
  the calls it made.
\<close>

definition sendChat :: "string \<Rightarrow> string \<times> chat_effect list" where
  "sendChat chatInput =
     (let chatInputTrimmed = trim chatInput
      in ('''', [OnSendInput chatInputTrimmed]))"

text \<open>\<open>onKeyUp\<close> of the textarea.\<close>

definition chatEnterPress ::
  "ChatInputProps \<Rightarrow> KeyboardEvent \<Rightarrow> string \<Rightarrow> string \<times> chat_effect list" where
  "chatEnterPress props e chatInput =
     (if key e = ''Enter'' \<and> \<not> shiftKey e \<and> \<not> isStreamProcessing props
         \<and> \<not> isFetchLoading props \<and> isLlmModelActive props
      then sendChat chatInput
      else (chatInput, []))"

text \<open>\<open>onKeyDown\<close> of the textarea.\<close>

definition preventEnterPress :: "ChatInputProps \<Rightarrow> KeyboardEvent \<Rightarrow> chat_effect list" where
  "preventEnterPress props e =
     (if key e = ''Enter'' \<and> \<not> shiftKey e \<and> \<not> isStreamProcessing props
         \<and> \<not> isFetchLoading props \<and> isLlmModelActive props
      then [PreventDefault]
      else [])"

section \<open>Settings form (components/settings/settings-form)\<close>

definition urls :: "(string \<times> string) list" where
  "urls =
     [(''http://localhost:11434'', ''ollama''),
      (''https://api.openai.com'', ''openai''),
      (''https://api.together.xyz'', ''openai''),
      (''https://api.mistral.ai'', ''openai'')]"

subsection \<open>Regular expressions\<close>

text \<open>
  The fragment of JavaScript regular expressions that \<open>urlPattern\<close> uses: character
  classes, sequence, alternation, \<open>+\<close> and \<open>?\<close>. The pattern is anchored at both ends
  (\<open>^\<close> ... \<open>$\<close>, no multiline flag) and has neither back references nor look-around, so
  \<^verbatim>\<open>RegExp.prototype.test\<close> succeeds exactly when the whole input is a word of the
  pattern. The matcher decides this with derivatives.
\<close>

datatype rexp =
    Empty
  | Eps
  | Class "char list"
  | Seq rexp rexp
  | Alt rexp rexp
  | Star rexp

definition Plus :: "rexp \<Rightarrow> rexp" where
  "Plus r = Seq r (Star r)"

definition Opt :: "rexp \<Rightarrow> rexp" where
  "Opt r = Alt r Eps"

fun Lit :: "string \<Rightarrow> rexp" where
  "Lit [] = Eps"
| "Lit (c # cs) = Seq (Class [c]) (Lit cs)"

fun nullable :: "rexp \<Rightarrow> bool" where
  "nullable Empty = False"
| "nullable Eps = True"
| "nullable (Class cs) = False"
| "nullable (Seq r s) = (nullable r \<and> nullable s)"
| "nullable (Alt r s) = (nullable r \<or> nullable s)"
| "nullable (Star r) = True"

fun deriv :: "char \<Rightarrow> rexp \<Rightarrow> rexp" where
  "deriv c Empty = Empty"
| "deriv c Eps = Empty"
| "deriv c (Class cs) = (if c \<in> set cs then Eps else Empty)"
| "deriv c (Seq r s) =
     (if nullable r then Alt (Seq (deriv c r) s) (deriv c s) else Seq (deriv c r) s)"
| "deriv c (Alt r s) = Alt (deriv c r) (deriv c s)"
| "deriv c (Star r) = Seq (deriv c r) (Star r)"

definition test :: "rexp \<Rightarrow> string \<Rightarrow> bool" where
  "test r s = nullable (fold deriv s r)"

text \<open>\<open>\w\<close> is \<open>[A-Za-z0-9_]\<close> and \<open>\d\<close> is \<open>[0-9]\<close> (the pattern has no unicode flag).\<close>

definition digitChars :: "char list" where
  "digitChars = ''0123456789''"

definition wordChars :: "char list" where
  "wordChars =
     ''abcdefghijklmnopqrstuvwxyz'' @ ''ABCDEFGHIJKLMNOPQRSTUVWXYZ'' @ digitChars @ ''_''"

text \<open>\<^verbatim>\<open>/^(https?:\/\/)(localhost|[\w-]+(\.[\w-]+)+)(:\d+)?$/\<close>\<close>

definition urlPattern :: rexp where
  "urlPattern =
     Seq (Seq (Lit ''http'') (Seq (Opt (Lit ''s'')) (Lit ''://'')))
      (Seq (Alt (Lit ''localhost'')
             (Seq (Plus (Class (wordChars @ ''-'')))
                  (Plus (Seq (Lit ''.'') (Plus (Class (wordChars @ ''-'')))))))
           (Opt (Seq (Lit '':'') (Plus (Class digitChars)))))"

text \<open>
  The words of an expression, as sets of strings: the meaning against which the matcher is
  proved right.
\<close>

definition conc :: "string set \<Rightarrow> string set \<Rightarrow> string set" where
  "conc A B = {a @ b | a b. a \<in> A \<and> b \<in> B}"

inductive_set star :: "string set \<Rightarrow> string set" for A :: "string set" where
  star_empty: "[] \<in> star A"
| star_step: "a \<in> A \<Longrightarrow> w \<in> star A \<Longrightarrow> a @ w \<in> star A"

fun lang :: "rexp \<Rightarrow> string set" where
  "lang Empty = {}"
| "lang Eps = {[]}"
| "lang (Class cs) = {[c] | c. c \<in> set cs}"
| "lang (Seq r s) = conc (lang r) (lang s)"
| "lang (Alt r s) = lang r \<union> lang s"
| "lang (Star r) = star (lang r)"

text \<open>
  The shape that the specification and the form's error message describe, stated without
  the expression: \<open>http://\<close> or \<open>https://\<close>, then a domain name, then optionally a colon
  and a decimal port, and nothing after that. A domain name is \<open>localhost\<close> or two or
  more labels separated by dots, a label being a non-empty run of letters, digits,
  underscores and hyphens.
\<close>

definition hostLabel :: "string \<Rightarrow> bool" where
  "hostLabel l = (l \<noteq> [] \<and> set l \<subseteq> set (wordChars @ ''-''))"

definition domainName :: "string \<Rightarrow> bool" where
  "domainName h =
     (h = ''localhost''
      \<or> (\<exists>l ls. hostLabel l \<and> ls \<noteq> [] \<and> list_all hostLabel ls
            \<and> h = l @ concat (map (\<lambda>x. CHR ''.'' # x) ls)))"

definition portSuffix :: "string \<Rightarrow> bool" where
  "portSuffix p =
     (p = [] \<or> (\<exists>ds. ds \<noteq> [] \<and> set ds \<subseteq> set digitChars \<and> p = CHR '':'' # ds))"

definition baseUrlShape :: "string \<Rightarrow> bool" where
  "baseUrlShape u =
     (\<exists>scheme h p. (scheme = ''http://'' \<or> scheme = ''https://'')
        \<and> domainName h \<and> portSuffix p \<and> u = scheme @ h @ p)"

subsection \<open>The schema and the form\<close>

record TSettingsSchema =
  url :: string
  apiKey :: string
  modelListVariant :: "string option"

text \<open>
  The three zod validators used for the key: \<open>z.string().min(n)\<close>, \<open>z.literal(l)\<close>
  and \<open>z.union([a, b])\<close>, which accepts what either member accepts.
\<close>

definition string_min :: "nat \<Rightarrow> string \<Rightarrow> bool" where
  "string_min n s = (n \<le> length s)"

definition literal :: "string \<Rightarrow> string \<Rightarrow> bool" where
  "literal l s = (s = l)"

definition union :: "(string \<Rightarrow> bool) \<Rightarrow> (string \<Rightarrow> bool) \<Rightarrow> string \<Rightarrow> bool" where
  "union a b s = (a s \<or> b s)"

definition apiKeySchema :: "string \<Rightarrow> bool" where
  "apiKeySchema = union (string_min 5) (literal '''')"

text \<open>
  Parsing a form value yields the list of issues, each a field path and a message; the
  value is valid when the list is empty. \<open>modelListVariant\<close> is \<open>None\<close> while the
  field is undefined.
\<close>

definition SettingsSchema :: "TSettingsSchema \<Rightarrow> (string \<times> string) list" where
  "SettingsSchema d =
     (if test urlPattern (url d) then []
      else [(''url'', ''URL must start with 'http://' or 'https://' followed by a domain name, without any trailing path.'')])
     @ (if apiKeySchema (apiKey d) then []
        else [(''apiKey'', ''API Key must be at least 5 characters long.'')])
     @ (case modelListVariant d of
          None \<Rightarrow> [(''modelListVariant'', ''Please select a model api.'')]
        | Some v \<Rightarrow> [])"

datatype settings_effect = SetSettings string string string | SetDialogOpen bool

definition settingsOnSubmit :: "string \<Rightarrow> string \<Rightarrow> string \<Rightarrow> settings_effect list" where
  "settingsOnSubmit variant baseUrl key' = [SetSettings variant baseUrl key', SetDialogOpen False]"

text \<open>
  \<open>form.handleSubmit(onSubmit)\<close>: the resolver runs the schema, and \<open>onSubmit\<close> is
  called only with a value that has no issue.
\<close>

definition handleSubmit ::
  "TSettingsSchema \<Rightarrow> (string \<times> string) list + settings_effect list" where
  "handleSubmit d =
     (case SettingsSchema d of
        [] \<Rightarrow>
          (case modelListVariant d of
             Some v \<Rightarrow> Inr (settingsOnSubmit v (url d) (apiKey d))
           | None \<Rightarrow> Inl [(''modelListVariant'', ''Please select a model api.'')])
      | i # issues \<Rightarrow> Inl (i # issues))"

definition setFormValues :: "string \<Rightarrow> string \<Rightarrow> TSettingsSchema \<Rightarrow> TSettingsSchema" where
  "setFormValues url' modelType form =
     (let form = form\<lparr>url := url'\<rparr>
      in if modelType = ''ollama'' then form\<lparr>modelListVariant := Some ''ollama''\<rparr>
         else if modelType = ''openai'' then form\<lparr>modelListVariant := Some ''openai''\<rparr>
         else form\<lparr>modelListVariant := Some ''manual''\<rparr>)"

text \<open>The \<open>onClick\<close> of the badge rendered for an entry of \<open>urls\<close>.\<close>

definition badgeOnClick :: "string \<times> string \<Rightarrow> TSettingsSchema \<Rightarrow> TSettingsSchema" where
  "badgeOnClick b form = setFormValues (fst b) (snd b) form"

text \<open>Typing into the input that the form registers for the field \<open>url\<close>.\<close>

definition urlOnChange :: "string \<Rightarrow> TSettingsSchema \<Rightarrow> TSettingsSchema" where
  "urlOnChange v form = form\<lparr>url := v\<rparr>"

section \<open>Model list (hooks/use-model-list)\<close>

text \<open>
  The two listing calls of \<open>lib/api\<close> are parameters of the query function: each
  returns the listing or fails with a message. The query function returns the calls it
  made next to its result.
\<close>

record TTag =
  name' :: string

record TModel =
  id' :: string
  object :: string
  created :: nat
  type' :: "string option"

record Api =
  getTag :: "string \<Rightarrow> bool \<Rightarrow> string + TTag list"
  getModelList :: "string \<Rightarrow> string \<Rightarrow> bool \<Rightarrow> string + TModel list"

datatype api_call = GetTag string bool | GetModelList string string bool

definition queryFn ::
  "Api \<Rightarrow> string \<Rightarrow> string \<Rightarrow> string \<Rightarrow> bool \<Rightarrow> api_call list \<times> (string + TModel list)" where
  "queryFn api modelVariant baseUrl token embeddedOnly =
     (if modelVariant = ''ollama'' then
        ([GetTag baseUrl embeddedOnly],
         case getTag api baseUrl embeddedOnly of
           Inl e \<Rightarrow> Inl e
         | Inr models \<Rightarrow>
             Inr (map (\<lambda>model. \<lparr>id' = name' model, object = ''model'', created = 0,
                                 type' = None\<rparr>) models))
      else if modelVariant = ''openai'' then
        ([GetModelList baseUrl token embeddedOnly], getModelList api baseUrl token embeddedOnly)
      else if modelVariant = ''manual'' then ([], Inr [])
      else ([], Inr []))"

section \<open>Files and numbers\<close>

type_synonym byte = "8 word"

text \<open>A \<open>File\<close>: its name, its media type and its bytes; \<open>file.size\<close> is their count.\<close>

record File =
  name :: string
  type :: string
  content :: "byte list"

definition File_size :: "File \<Rightarrow> nat" where
  "File_size f = length (content f)"

subsection \<open>JavaScript numbers\<close>

text \<open>
  The progress computation divides two byte counts, prints the quotient with two decimals,
  reads it back and multiplies by 100, all in IEEE 754 double precision. Only the
  non-negative numbers occur. A finite double is modelled by its rational value, and
  \<open>round_double\<close> rounds a non-negative rational to the nearest double, ties to even,
  with gradual underflow and overflow to infinity. Byte counts themselves are
  \<^typ>\<open>nat\<close>: integer arithmetic on doubles is exact below \<open>2 ^ 53\<close>.
\<close>

datatype number = Finite rat | Infinity | NaN

text \<open>The number of binary digits of a positive integer.\<close>

function bit_length :: "int \<Rightarrow> int" where
  "bit_length n = (if n \<le> 0 then 0 else 1 + bit_length (n div 2))"
  by pat_completeness auto
termination
  by (relation "measure nat") auto

declare bit_length.simps [simp del]

text \<open>The binary exponent \<open>e\<close> of a positive rational: \<open>2 ^ e \<le> x < 2 ^ (e + 1)\<close>.\<close>

definition floor_log2 :: "rat \<Rightarrow> int" where
  "floor_log2 x =
     (let (p, q) = quotient_of x;
          d = bit_length p - bit_length q
      in if 2 powi d \<le> x then d else d - 1)"

definition round_half_even :: "rat \<Rightarrow> int" where
  "round_half_even m =
     (let f = \<lfloor>m\<rfloor>; r = m - of_int f
      in if r < 1 / 2 then f
         else if 1 / 2 < r then f + 1
         else if even f then f else f + 1)"

definition round_double :: "rat \<Rightarrow> number" where
  "round_double x =
     (if x = 0 then Finite 0
      else let e = max (floor_log2 x) (- 1022);
               ulp = 2 powi (e - 52);
               y = of_int (round_half_even (x / ulp)) * ulp
           in if 2 ^ 1024 \<le> y then Infinity else Finite y)"

text \<open>\<open>a / b\<close> for two byte counts.\<close>

definition divide_counts :: "nat \<Rightarrow> nat \<Rightarrow> number" where
  "divide_counts a b =
     (if b = 0 then (if a = 0 then NaN else Infinity)
      else round_double (of_nat a / of_nat b))"

text \<open>
  \<open>x.toFixed(2)\<close> yields a decimal numeral, represented by the value it denotes: the
  multiple \<open>n / 100\<close> nearest to \<open>x\<close>, the larger \<open>n\<close> on a tie; from \<open>10 ^ 21\<close> on
  the numeral is that of \<open>String(x)\<close>, which reads back as \<open>x\<close>.
\<close>

datatype numeral_string = Decimal rat | StrInfinity | StrNaN

definition toFixed2 :: "number \<Rightarrow> numeral_string" where
  "toFixed2 x =
     (case x of
        NaN \<Rightarrow> StrNaN
      | Infinity \<Rightarrow> StrInfinity
      | Finite v \<Rightarrow>
          if 10 ^ 21 \<le> v then Decimal v
          else Decimal (of_int \<lfloor>v * 100 + 1 / 2\<rfloor> / 100))"

definition parseFloat :: "numeral_string \<Rightarrow> number" where
  "parseFloat s =
     (case s of
        StrNaN \<Rightarrow> NaN
      | StrInfinity \<Rightarrow> Infinity
      | Decimal v \<Rightarrow> round_double v)"

definition times100 :: "number \<Rightarrow> number" where
  "times100 x =
     (case x of
        NaN \<Rightarrow> NaN
      | Infinity \<Rightarrow> Infinity
      | Finite v \<Rightarrow> round_double (v * 100))"

section \<open>Upload page (app/upload/page)\<close>

definition maxFileSizeMb :: nat where
  "maxFileSizeMb = 30"

text \<open>
  The value registered for the field \<open>file\<close>: a \<open>File\<close>, a \<open>FileList\<close> or anything
  else (such as \<open>undefined\<close>). The transform keeps a file, takes the first entry of a
  list, and maps the rest (and the missing first entry of an empty list) to no file.
\<close>

datatype file_input = IsFile File | IsFileList "File list" | Neither

definition transform :: "file_input \<Rightarrow> File option" where
  "transform val =
     (case val of
        IsFile f \<Rightarrow> Some f
      | IsFileList fs \<Rightarrow> (case fs of [] \<Rightarrow> None | f # rest \<Rightarrow> Some f)
      | Neither \<Rightarrow> None)"

text \<open>The messages of the issues that \<open>superRefine\<close> adds, in order.\<close>

definition superRefine :: "File option \<Rightarrow> string list" where
  "superRefine file =
     (case file of
        None \<Rightarrow> [''Not a file'']
      | Some f \<Rightarrow>
          (if File_size f > maxFileSizeMb * 1024 * 1024
           then [''Max file size allowed is 30MB''] else [])
          @ (if type f \<notin> set [''application/pdf'', ''text/plain'']
             then [''File must be an document (pdf, txt)''] else []))"

definition formSchema :: "file_input \<Rightarrow> string list" where
  "formSchema val = superRefine (transform val)"

text \<open>
  What the page does: state setters, calls of the throttled \<open>updateProgress\<close> (the calls
  themselves, before throttling), the request, log and toast calls, timers with the
  effects of their callbacks and their delay in milliseconds, and the error that the form
  shows on a field.
\<close>

datatype effect =
    SetFileLoading bool
  | SetFilename string
  | SetFilesize nat
  | SetFadeOut bool
  | UpdateProgress number
  | Fetch string File
  | ConsoleError string
  | ToastSuccess string string
  | SetTimeout "effect list" nat
  | FieldError string string

text \<open>
  What \<open>fetch\<close> gives the page: it rejects, or it resolves with a response whose body, if
  any, is read chunk by chunk until the reader reports \<open>done\<close> or a read fails.
\<close>

datatype read_end = Done | ReadFails

record FetchResponse =
  ok :: bool
  reader :: "(byte list list \<times> read_end) option"

datatype fetch_result = Rejects | Resolves FetchResponse

datatype completion = Normal | Return | Throw

definition progressStep :: "nat \<Rightarrow> nat \<Rightarrow> number" where
  "progressStep receivedLength fileSize =
     times100 (parseFloat (toFixed2 (divide_counts receivedLength fileSize)))"

text \<open>
  The \<open>while (true)\<close> loop over the reader: the effects, the final \<open>receivedLength\<close>
  and how the loop was left.
\<close>

fun readLoop ::
  "nat \<Rightarrow> nat \<Rightarrow> byte list list \<Rightarrow> read_end \<Rightarrow> effect list \<times> nat \<times> completion" where
  "readLoop fileSize receivedLength [] Done = ([], receivedLength, Normal)"
| "readLoop fileSize receivedLength [] ReadFails = ([], receivedLength, Throw)"
| "readLoop fileSize receivedLength (v # rest) e =
     (let receivedLength = receivedLength + length v;
          step = progressStep receivedLength fileSize;
          (fx, n, c) = readLoop fileSize receivedLength rest e
      in (UpdateProgress step # fx, n, c))"

definition tryBlock :: "fetch_result \<Rightarrow> File \<Rightarrow> effect list \<times> completion" where
  "tryBlock fetched file =
     (case fetched of
        Rejects \<Rightarrow> ([Fetch ''/api/documents'' file], Throw)
      | Resolves response \<Rightarrow>
          if \<not> ok response then ([Fetch ''/api/documents'' file], Throw)
          else
            (case reader response of
               None \<Rightarrow> ([Fetch ''/api/documents'' file], Return)
             | Some (chunks, e) \<Rightarrow>
                 (let (fx, n, c) = readLoop (File_size file) 0 chunks e
                  in (Fetch ''/api/documents'' file # fx, c))))"

definition catchBlock :: "effect list" where
  "catchBlock = [ConsoleError ''Error uploading file:'']"

definition finallyBlock :: "File \<Rightarrow> effect list" where
  "finallyBlock file =
     [ToastSuccess ''Document uploaded successfully!'' (''File: '' @ name file),
      SetTimeout [SetFadeOut True] 2000,
      SetTimeout [SetFileLoading False, SetFilename '''', SetFilesize 0,
                  UpdateProgress (Finite 0)] 3000]"

definition onSubmit :: "fetch_result \<Rightarrow> File \<Rightarrow> effect list" where
  "onSubmit fetched file =
     [SetFileLoading True, SetFilename (name file), SetFilesize (File_size file)]
     @ (let (fx, c) = tryBlock fetched file
        in fx @ (if c = Throw then catchBlock else []))
     @ finallyBlock file"

text \<open>
  \<open>form.trigger()\<close> and \<open>form.handleSubmit\<close> run the schema; the first issue becomes the
  error of the field. \<open>handleSubmit\<close> calls \<open>onSubmit\<close> with the parsed file when there
  is no issue.
\<close>

definition trigger :: "file_input \<Rightarrow> bool \<times> effect list" where
  "trigger val =
     (case formSchema val of
        [] \<Rightarrow> (True, [])
      | m # ms \<Rightarrow> (False, [FieldError ''file'' m]))"

definition uploadHandleSubmit :: "fetch_result \<Rightarrow> file_input \<Rightarrow> effect list" where
  "uploadHandleSubmit fetched val =
     (case formSchema val of
        [] \<Rightarrow> (case transform val of Some f \<Rightarrow> onSubmit fetched f | None \<Rightarrow> [])
      | m # ms \<Rightarrow> [FieldError ''file'' m])"

text \<open>
  \<open>onFileSelected\<close> does not await the submission it starts: its own state updates come
  first in the trace, the effects of the submission after them.
\<close>

definition onFileSelected :: "fetch_result \<Rightarrow> File \<Rightarrow> effect list" where
  "onFileSelected fetched file =
     (let (isValid, errors) = trigger (IsFile file)
      in if isValid
         then errors
              @ [SetFilename (name file), SetFilesize (File_size file), SetFileLoading True,
                 SetFadeOut False]
              @ uploadHandleSubmit fetched (IsFile file)
         else errors)"

fun isFetch :: "effect \<Rightarrow> bool" where
  "isFetch (Fetch u f) = True"
| "isFetch e = False"

definition networkCalls :: "effect list \<Rightarrow> effect list" where
  "networkCalls fx = filter isFetch fx"

section \<open>Document route (app/api/documents/route) and the files table (db/schema)\<close>

record TFileSchema =
  fileId :: nat
  filename :: string
  fileSize :: "nat option"
  timestamp :: string
  isEmbedded :: bool
  embedModel :: "string option"

text \<open>
  The table with its \<open>AUTOINCREMENT\<close> counter (the largest id handed out so far). A new
  id is one more than the largest of the counter and the ids in the table.
\<close>

record files_table =
  rows :: "TFileSchema list"
  seq :: nat

definition nextId :: "files_table \<Rightarrow> nat" where
  "nextId t = Suc (fold max (map fileId (rows t)) (seq t))"

datatype error = TypeError | WriteError | InsertError

datatype io = Succeeds | Fails

text \<open>
  The environment of one request: whether the write to disk and the insert go through,
  and the local time that the column default \<open>datetime('now','localtime')\<close> reads.
\<close>

record Environment =
  writeFile_io :: io
  insert_io :: io
  now :: string

text \<open>\<open>fs.writeFile\<close> creates the file or replaces its content.\<close>

definition writeFile ::
  "io \<Rightarrow> string \<Rightarrow> byte list \<Rightarrow> (string \<rightharpoonup> byte list) \<Rightarrow> error + (string \<rightharpoonup> byte list)" where
  "writeFile outcome path data files =
     (case outcome of
        Fails \<Rightarrow> Inl WriteError
      | Succeeds \<Rightarrow> Inr (files(path \<mapsto> data)))"

text \<open>
  \<open>db.insert(files).values({filename, fileSize})\<close>: the other columns take their
  defaults.
\<close>

definition insertFiles ::
  "io \<Rightarrow> string \<Rightarrow> string \<Rightarrow> nat \<Rightarrow> files_table \<Rightarrow> error + files_table" where
  "insertFiles outcome localtime fname fsize t =
     (case outcome of
        Fails \<Rightarrow> Inl InsertError
      | Succeeds \<Rightarrow>
          Inr \<lparr>rows = rows t @
                 [\<lparr>fileId = nextId t, filename = fname, fileSize = Some fsize,
                   timestamp = localtime, isEmbedded = False, embedModel = Some ''''\<rparr>],
               seq = nextId t\<rparr>)"

datatype FormDataEntryValue = StringValue string | FileValue File

type_synonym FormData = "(string \<times> FormDataEntryValue) list"

text \<open>\<open>formData.get(k)\<close>: the first value stored under \<open>k\<close>, if any.\<close>

definition get :: "FormData \<Rightarrow> string \<Rightarrow> FormDataEntryValue option" where
  "get fd k = map_of fd k"

text \<open>A request body is form data, or \<open>request.formData()\<close> rejects.\<close>

record Request =
  formData :: "FormData option"

datatype BodyInit = Text string | ReadableStream "byte list list"

record Response =
  status :: nat
  body :: BodyInit

record State =
  uploads :: "string \<rightharpoonup> byte list"
  db :: files_table

definition POST :: "Environment \<Rightarrow> Request \<Rightarrow> State \<Rightarrow> (error + Response) \<times> State" where
  "POST env request st =
     (case formData request of
        None \<Rightarrow> (Inl TypeError, st)
      | Some fd \<Rightarrow>
          (case get fd ''file'' of
             None \<Rightarrow> (Inr \<lparr>status = 400, body = Text ''No file uploaded''\<rparr>, st)
           | Some (StringValue s) \<Rightarrow> (Inr \<lparr>status = 400, body = Text ''No file uploaded''\<rparr>, st)
           | Some (FileValue file) \<Rightarrow>
               (let fileBuffer = content file;
                    filePath = ''./uploads/'' @ name file
                in case writeFile (writeFile_io env) filePath fileBuffer (uploads st) of
                     Inl e \<Rightarrow> (Inl e, st)
                   | Inr written \<Rightarrow>
                       (case insertFiles (insert_io env) (now env) (name file) (File_size file)
                               (db st) of
                          Inl e \<Rightarrow> (Inl e, st\<lparr>uploads := written\<rparr>)
                        | Inr inserted \<Rightarrow>
                            (Inr \<lparr>status = 200, body = ReadableStream [fileBuffer]\<rparr>,
                             \<lparr>uploads = written, db = inserted\<rparr>)))))"

text \<open>
  The bytes that a response body carries, and what the page's \<open>fetch\<close> observes of a
  response: its status class and its bytes, split into chunks in any way.
\<close>

definition bodyBytes :: "BodyInit \<Rightarrow> byte list" where
  "bodyBytes b =
     (case b of
        Text s \<Rightarrow> map (\<lambda>c. of_nat (of_char c)) s
      | ReadableStream chunks \<Rightarrow> concat chunks)"

definition delivers :: "Response \<Rightarrow> FetchResponse \<Rightarrow> bool" where
  "delivers r fr =
     (ok fr = (200 \<le> status r \<and> status r \<le> 299)
      \<and> (case reader fr of
            None \<Rightarrow> False
          | Some (chunks, e) \<Rightarrow> e = Done \<and> concat chunks = bodyBytes (body r)))"

chapter \<open>Properties\<close>

section \<open>Chat input\<close>

text \<open>
  C1 (amended). For an Enter keypress without shift: when a stream is in flight, a fetch
  is loading or no model is active, the send action is not invoked, the input is kept,
  and the default effect of the key is not prevented; otherwise the input is cleared, the
  trimmed input is dispatched to the send action, and the default effect is prevented.
\<close>

theorem chat_enter_press:
  assumes "key e = ''Enter''" and "\<not> shiftKey e"
  shows "(if isStreamProcessing props \<or> isFetchLoading props \<or> \<not> isLlmModelActive props
          then chatEnterPress props e chatInput = (chatInput, [])
               \<and> preventEnterPress props e = []
          else chatEnterPress props e chatInput = ('''', [OnSendInput (trim chatInput)])
               \<and> preventEnterPress props e = [PreventDefault])"
  using assms by (simp add: chatEnterPress_def preventEnterPress_def sendChat_def)

theorem chat_enter_press_witness:
  "chatEnterPress \<lparr>isStreamProcessing = False, isFetchLoading = False, isLlmModelActive = True\<rparr>
     \<lparr>key = ''Enter'', shiftKey = False\<rparr> ''  hello there  '' = ('''', [OnSendInput ''hello there''])
   \<and> preventEnterPress \<lparr>isStreamProcessing = False, isFetchLoading = False, isLlmModelActive = True\<rparr>
     \<lparr>key = ''Enter'', shiftKey = False\<rparr> = [PreventDefault]
   \<and> chatEnterPress \<lparr>isStreamProcessing = False, isFetchLoading = True, isLlmModelActive = True\<rparr>
     \<lparr>key = ''Enter'', shiftKey = False\<rparr> ''hi'' = (''hi'', [])
   \<and> preventEnterPress \<lparr>isStreamProcessing = False, isFetchLoading = True, isLlmModelActive = True\<rparr>
     \<lparr>key = ''Enter'', shiftKey = False\<rparr> = []"
  using chat_enter_press [of "\<lparr>key = ''Enter'', shiftKey = False\<rparr>"
          "\<lparr>isStreamProcessing = False, isFetchLoading = False, isLlmModelActive = True\<rparr>"
          "''  hello there  ''"]
        chat_enter_press [of "\<lparr>key = ''Enter'', shiftKey = False\<rparr>"
          "\<lparr>isStreamProcessing = False, isFetchLoading = True, isLlmModelActive = True\<rparr>"
          "''hi''"]
  by (simp add: trim_def isWhiteSpace_def)

text \<open>
  The specification has a blocked Enter suppressed. With a stream in flight the send
  action is indeed not invoked, but \<open>preventDefault\<close> is not called either.
\<close>

theorem enter_while_streaming_counterexample:
  "\<not> (chatEnterPress \<lparr>isStreamProcessing = True, isFetchLoading = False, isLlmModelActive = True\<rparr>
         \<lparr>key = ''Enter'', shiftKey = False\<rparr> ''hi'' = (''hi'', [])
       \<and> PreventDefault \<in> set (preventEnterPress
           \<lparr>isStreamProcessing = True, isFetchLoading = False, isLlmModelActive = True\<rparr>
           \<lparr>key = ''Enter'', shiftKey = False\<rparr>))"
  by (simp add: preventEnterPress_def)

section \<open>Settings form\<close>

lemma apiKeySchema_iff: "apiKeySchema k \<longleftrightarrow> k = [] \<or> 5 \<le> length k"
  by (auto simp: apiKeySchema_def union_def string_min_def literal_def)

text \<open>
  C7. The key validation accepts exactly the keys that are empty or at least 5 characters
  long: a key of length 1 to 4 makes the submission fail with an issue on the key field,
  and a key of length 0 or at least 5 raises no issue on the key field.
\<close>

theorem apiKey_validation:
  "(apiKeySchema k \<longleftrightarrow> length k = 0 \<or> 5 \<le> length k)
   \<and> (1 \<le> length k \<and> length k \<le> 4 \<longrightarrow>
        (\<exists>issues. handleSubmit (d\<lparr>apiKey := k\<rparr>) = Inl issues
           \<and> (''apiKey'', ''API Key must be at least 5 characters long.'') \<in> set issues))
   \<and> (length k = 0 \<or> 5 \<le> length k \<longrightarrow>
        ''apiKey'' \<notin> fst ` set (SettingsSchema (d\<lparr>apiKey := k\<rparr>)))"
proof (intro conjI impI)
  show "apiKeySchema k \<longleftrightarrow> length k = 0 \<or> 5 \<le> length k"
    by (simp add: apiKeySchema_iff)
next
  assume "1 \<le> length k \<and> length k \<le> 4"
  then have bad: "\<not> apiKeySchema k"
    by (auto simp: apiKeySchema_iff)
  then have "(''apiKey'', ''API Key must be at least 5 characters long.'')
               \<in> set (SettingsSchema (d\<lparr>apiKey := k\<rparr>))"
    by (simp add: SettingsSchema_def)
  then show "\<exists>issues. handleSubmit (d\<lparr>apiKey := k\<rparr>) = Inl issues
           \<and> (''apiKey'', ''API Key must be at least 5 characters long.'') \<in> set issues"
    by (cases "SettingsSchema (d\<lparr>apiKey := k\<rparr>)") (auto simp: handleSubmit_def)
next
  assume "length k = 0 \<or> 5 \<le> length k"
  then have "apiKeySchema k"
    by (auto simp: apiKeySchema_iff)
  then show "''apiKey'' \<notin> fst ` set (SettingsSchema (d\<lparr>apiKey := k\<rparr>))"
    by (auto simp: SettingsSchema_def split: option.splits)
qed

theorem apiKey_validation_witness:
  "\<not> apiKeySchema ''abcd''
   \<and> (\<exists>issues. handleSubmit \<lparr>url = ''https://api.openai.com'', apiKey = ''abcd'',
                               modelListVariant = Some ''openai''\<rparr> = Inl issues
         \<and> (''apiKey'', ''API Key must be at least 5 characters long.'') \<in> set issues)
   \<and> apiKeySchema '''' \<and> apiKeySchema ''sk-12345''
   \<and> ''apiKey'' \<notin> fst ` set (SettingsSchema \<lparr>url = ''https://api.openai.com'',
                               apiKey = ''sk-12345'', modelListVariant = Some ''openai''\<rparr>)"
  using apiKey_validation [of "''abcd''"
          "\<lparr>url = ''https://api.openai.com'', apiKey = '''', modelListVariant = Some ''openai''\<rparr>"]
        apiKey_validation [of "''''"]
        apiKey_validation [of "''sk-12345''"
          "\<lparr>url = ''https://api.openai.com'', apiKey = '''', modelListVariant = Some ''openai''\<rparr>"]
  by simp

text \<open>
  C3 (amended). Clicking a preset badge sets the URL field to the badge's URL and the
  variant to the badge's kind: \<open>ollama\<close> for \<open>http://localhost:11434\<close>, \<open>openai\<close>
  for the OpenAI, Together and Mistral presets; \<open>setFormValues\<close> with any kind other
  than \<open>ollama\<close> and \<open>openai\<close> sets the variant to \<open>manual\<close>. Typing a URL into
  the field changes the URL only and leaves the variant as it was: a variant that is
  \<open>manual\<close> stays \<open>manual\<close>, and no other variant becomes \<open>manual\<close>.
\<close>

theorem preset_badges:
  "map (\<lambda>b. (url (badgeOnClick b form), modelListVariant (badgeOnClick b form))) urls =
     [(''http://localhost:11434'', Some ''ollama''),
      (''https://api.openai.com'', Some ''openai''),
      (''https://api.together.xyz'', Some ''openai''),
      (''https://api.mistral.ai'', Some ''openai'')]
   \<and> url (urlOnChange v form) = v
   \<and> modelListVariant (urlOnChange v form) = modelListVariant form
   \<and> (modelListVariant form = Some ''manual'' \<longrightarrow>
        modelListVariant (urlOnChange v form) = Some ''manual'')
   \<and> (modelType \<noteq> ''ollama'' \<and> modelType \<noteq> ''openai'' \<longrightarrow>
        modelListVariant (setFormValues v modelType form) = Some ''manual'')"
  by (simp add: urls_def badgeOnClick_def setFormValues_def urlOnChange_def)

theorem preset_badges_witness:
  "modelListVariant (urlOnChange ''http://192.168.1.20:8080''
      \<lparr>url = '''', apiKey = '''', modelListVariant = Some ''manual''\<rparr>) = Some ''manual''
   \<and> modelListVariant (setFormValues ''http://192.168.1.20:8080'' ''other''
      \<lparr>url = '''', apiKey = '''', modelListVariant = Some ''ollama''\<rparr>) = Some ''manual''
   \<and> modelListVariant (badgeOnClick (''http://localhost:11434'', ''ollama'')
      \<lparr>url = '''', apiKey = '''', modelListVariant = Some ''manual''\<rparr>) = Some ''ollama''"
  using preset_badges [of "\<lparr>url = '''', apiKey = '''', modelListVariant = Some ''manual''\<rparr>"
          "''http://192.168.1.20:8080''" "''other''"]
        preset_badges [of "\<lparr>url = '''', apiKey = '''', modelListVariant = Some ''ollama''\<rparr>"
          "''http://192.168.1.20:8080''" "''other''"]
  by (simp add: urls_def)

text \<open>
  The specification has every manually entered URL end with the variant \<open>manual\<close>.
  After a click on the \<open>http://localhost:11434\<close> badge, typing another URL leaves the
  variant \<open>ollama\<close>.
\<close>

theorem typed_url_keeps_variant_counterexample:
  "modelListVariant
     (urlOnChange ''http://192.168.1.20:8080''
        (badgeOnClick (''http://localhost:11434'', ''ollama'')
           \<lparr>url = '''', apiKey = '''', modelListVariant = Some ''manual''\<rparr>))
     = Some ''ollama''
   \<and> modelListVariant
     (urlOnChange ''http://192.168.1.20:8080''
        (badgeOnClick (''http://localhost:11434'', ''ollama'')
           \<lparr>url = '''', apiKey = '''', modelListVariant = Some ''manual''\<rparr>))
     \<noteq> Some ''manual''"
  by (simp add: urlOnChange_def badgeOnClick_def setFormValues_def)

subsection \<open>The matcher and the shape of a base URL\<close>

lemma nullable_lang: "nullable r \<longleftrightarrow> [] \<in> lang r"
  by (induction r) (auto simp: conc_def intro: star.star_empty)

lemma conc_Cons:
  "c # w \<in> conc A B \<longleftrightarrow>
     (\<exists>a b. c # a \<in> A \<and> b \<in> B \<and> w = a @ b) \<or> ([] \<in> A \<and> c # w \<in> B)"
proof
  assume "c # w \<in> conc A B"
  then obtain a b where ab: "a \<in> A" "b \<in> B" "c # w = a @ b"
    by (auto simp: conc_def)
  show "(\<exists>a b. c # a \<in> A \<and> b \<in> B \<and> w = a @ b) \<or> ([] \<in> A \<and> c # w \<in> B)"
  proof (cases a)
    case Nil
    with ab show ?thesis by simp
  next
    case (Cons x a')
    with ab have "c # a' \<in> A" "w = a' @ b" by simp_all
    with ab(2) show ?thesis by blast
  qed
next
  assume "(\<exists>a b. c # a \<in> A \<and> b \<in> B \<and> w = a @ b) \<or> ([] \<in> A \<and> c # w \<in> B)"
  then show "c # w \<in> conc A B"
  proof
    assume "\<exists>a b. c # a \<in> A \<and> b \<in> B \<and> w = a @ b"
    then obtain a b where "c # a \<in> A" "b \<in> B" "w = a @ b" by blast
    then have "(c # a) @ b \<in> conc A B" unfolding conc_def by blast
    with \<open>w = a @ b\<close> show ?thesis by simp
  next
    assume "[] \<in> A \<and> c # w \<in> B"
    then have "[] @ (c # w) \<in> conc A B" unfolding conc_def by blast
    then show ?thesis by simp
  qed
qed

lemma star_Cons_split:
  assumes "v \<in> star A" and "v = c # w"
  shows "\<exists>a b. c # a \<in> A \<and> b \<in> star A \<and> w = a @ b"
  using assms
proof (induction arbitrary: w rule: star.induct)
  case star_empty
  then show ?case by simp
next
  case (star_step a v)
  show ?case
  proof (cases a)
    case Nil
    with star_step.prems have "v = c # w" by simp
    then show ?thesis by (rule star_step.IH)
  next
    case (Cons x a')
    with star_step.prems have "x = c" "w = a' @ v" by simp_all
    with Cons star_step.hyps show ?thesis by blast
  qed
qed

lemma star_Cons:
  "c # w \<in> star A \<longleftrightarrow> (\<exists>a b. c # a \<in> A \<and> b \<in> star A \<and> w = a @ b)"
proof
  assume "c # w \<in> star A"
  then show "\<exists>a b. c # a \<in> A \<and> b \<in> star A \<and> w = a @ b"
    by (rule star_Cons_split) simp
next
  assume "\<exists>a b. c # a \<in> A \<and> b \<in> star A \<and> w = a @ b"
  then obtain a b where "c # a \<in> A" "b \<in> star A" "w = a @ b" by blast
  then have "(c # a) @ b \<in> star A" by (intro star.star_step)
  with \<open>w = a @ b\<close> show "c # w \<in> star A" by simp
qed

lemma lang_deriv: "w \<in> lang (deriv c r) \<longleftrightarrow> c # w \<in> lang r"
proof (induction r arbitrary: w)
  case (Seq r s)
  then show ?case
    by (auto simp: conc_Cons nullable_lang) (auto simp: conc_def)
next
  case (Star r)
  then show ?case
    by (auto simp: star_Cons) (auto simp: conc_def)
qed auto

lemma test_lang: "test r s \<longleftrightarrow> s \<in> lang r"
proof -
  have "nullable (fold deriv s r) \<longleftrightarrow> s \<in> lang r" for r
  proof (induction s arbitrary: r)
    case Nil
    show ?case by (simp add: nullable_lang)
  next
    case (Cons c s)
    show ?case by (simp add: Cons.IH lang_deriv)
  qed
  then show ?thesis by (simp add: test_def)
qed

lemma conc_iff: "w \<in> conc A B \<longleftrightarrow> (\<exists>a b. a \<in> A \<and> b \<in> B \<and> w = a @ b)"
  unfolding conc_def by blast

lemma lang_Seq: "w \<in> lang (Seq r s) \<longleftrightarrow> (\<exists>a b. a \<in> lang r \<and> b \<in> lang s \<and> w = a @ b)"
  by (simp only: lang.simps conc_iff)

lemma lang_Alt: "w \<in> lang (Alt r s) \<longleftrightarrow> w \<in> lang r \<or> w \<in> lang s"
  by simp

lemma lang_Plus:
  "w \<in> lang (Plus r) \<longleftrightarrow> (\<exists>a b. a \<in> lang r \<and> b \<in> star (lang r) \<and> w = a @ b)"
  by (simp only: Plus_def lang.simps conc_iff)

lemma lang_Opt: "w \<in> lang (Opt r) \<longleftrightarrow> w = [] \<or> w \<in> lang r"
  by (auto simp: Opt_def)

lemma lang_Lit: "w \<in> lang (Lit s) \<longleftrightarrow> w = s"
proof (induction s arbitrary: w)
  case Nil
  show ?case by simp
next
  case (Cons c s)
  have "w \<in> lang (Lit (c # s)) \<longleftrightarrow> (\<exists>a b. a \<in> lang (Class [c]) \<and> b \<in> lang (Lit s) \<and> w = a @ b)"
    by (simp only: Lit.simps lang_Seq)
  also have "\<dots> \<longleftrightarrow> w = c # s"
    by (simp add: Cons.IH)
  finally show ?case .
qed

lemma star_concat:
  "w \<in> star A \<longleftrightarrow> (\<exists>ws. set ws \<subseteq> A \<and> w = concat ws)"
proof
  assume "w \<in> star A"
  then show "\<exists>ws. set ws \<subseteq> A \<and> w = concat ws"
  proof (induction rule: star.induct)
    case star_empty
    have "set [] \<subseteq> A \<and> [] = concat ([] :: string list)" by simp
    then show ?case by blast
  next
    case (star_step a w)
    then obtain ws where "set ws \<subseteq> A" "w = concat ws" by blast
    with star_step.hyps have "set (a # ws) \<subseteq> A \<and> a @ w = concat (a # ws)" by simp
    then show ?case by blast
  qed
next
  assume "\<exists>ws. set ws \<subseteq> A \<and> w = concat ws"
  then obtain ws where "set ws \<subseteq> A" "w = concat ws" by blast
  then show "w \<in> star A"
    by (induction ws arbitrary: w) (auto intro: star.intros)
qed

lemma star_Class: "w \<in> star (lang (Class cs)) \<longleftrightarrow> set w \<subseteq> set cs"
proof
  assume "w \<in> star (lang (Class cs))"
  then show "set w \<subseteq> set cs"
    by (induction rule: star.induct) auto
next
  assume "set w \<subseteq> set cs"
  then show "w \<in> star (lang (Class cs))"
  proof (induction w)
    case Nil
    show ?case by (rule star.star_empty)
  next
    case (Cons c w)
    then have "[c] \<in> lang (Class cs)" "w \<in> star (lang (Class cs))" by simp_all
    then have "[c] @ w \<in> star (lang (Class cs))" by (rule star.star_step)
    then show ?case by simp
  qed
qed

lemma lang_Plus_Class: "w \<in> lang (Plus (Class cs)) \<longleftrightarrow> w \<noteq> [] \<and> set w \<subseteq> set cs"
proof
  assume "w \<in> lang (Plus (Class cs))"
  then obtain a b where a: "a \<in> lang (Class cs)" and b: "b \<in> star (lang (Class cs))"
    and w: "w = a @ b"
    unfolding lang_Plus by blast
  from b have "set b \<subseteq> set cs"
    by (simp only: star_Class)
  moreover from a obtain c where "c \<in> set cs" "a = [c]"
    by auto
  ultimately show "w \<noteq> [] \<and> set w \<subseteq> set cs"
    using w by simp
next
  assume w: "w \<noteq> [] \<and> set w \<subseteq> set cs"
  then obtain c v where cv: "w = c # v" by (cases w) auto
  with w have "c \<in> set cs" "set v \<subseteq> set cs"
    by simp_all
  then have "[c] \<in> lang (Class cs)" "v \<in> star (lang (Class cs))"
    by (simp, simp only: star_Class)
  then have "[c] @ v \<in> lang (Plus (Class cs))"
    unfolding lang_Plus by blast
  with cv show "w \<in> lang (Plus (Class cs))" by simp
qed

lemma hostLabel_lang: "hostLabel l \<longleftrightarrow> l \<in> lang (Plus (Class (wordChars @ ''-'')))"
  by (simp only: hostLabel_def lang_Plus_Class)

lemma dotted_lang:
  "x \<in> lang (Seq (Lit ''.'') (Plus (Class (wordChars @ ''-'')))) \<longleftrightarrow>
     (\<exists>l. hostLabel l \<and> x = CHR ''.'' # l)"
proof -
  have "x \<in> lang (Seq (Lit ''.'') (Plus (Class (wordChars @ ''-'')))) \<longleftrightarrow>
      (\<exists>a l. a = ''.'' \<and> hostLabel l \<and> x = a @ l)"
    by (simp only: lang_Seq lang_Lit hostLabel_lang)
  also have "\<dots> \<longleftrightarrow> (\<exists>l. hostLabel l \<and> x = CHR ''.'' # l)"
    by simp
  finally show ?thesis .
qed

lemma dotted_list:
  "set ws \<subseteq> lang (Seq (Lit ''.'') (Plus (Class (wordChars @ ''-'')))) \<longleftrightarrow>
     (\<exists>ls. list_all hostLabel ls \<and> ws = map (\<lambda>x. CHR ''.'' # x) ls)"
  (is "set ws \<subseteq> ?D \<longleftrightarrow> _")
proof (induction ws)
  case Nil
  show ?case by simp
next
  case (Cons w ws)
  show ?case
  proof
    assume "set (w # ws) \<subseteq> ?D"
    then have w: "w \<in> ?D" and ws: "set ws \<subseteq> ?D"
      by simp_all
    from w obtain l where l: "hostLabel l" "w = CHR ''.'' # l"
      unfolding dotted_lang by blast
    from ws Cons.IH obtain ls where ls: "list_all hostLabel ls" "ws = map (\<lambda>x. CHR ''.'' # x) ls"
      by auto
    from l ls have "list_all hostLabel (l # ls) \<and> w # ws = map (\<lambda>x. CHR ''.'' # x) (l # ls)"
      by simp
    then show "\<exists>ls. list_all hostLabel ls \<and> w # ws = map (\<lambda>x. CHR ''.'' # x) ls"
      by (rule exI)
  next
    assume "\<exists>ls. list_all hostLabel ls \<and> w # ws = map (\<lambda>x. CHR ''.'' # x) ls"
    then obtain ls where ls: "list_all hostLabel ls" "w # ws = map (\<lambda>x. CHR ''.'' # x) ls"
      by (elim exE conjE)
    then obtain l ls' where split: "ls = l # ls'"
      by (cases ls) auto
    with ls have parts: "hostLabel l" "w = CHR ''.'' # l" "list_all hostLabel ls'"
      "ws = map (\<lambda>x. CHR ''.'' # x) ls'"
      by simp_all
    from parts(1,2) have "w \<in> ?D"
      unfolding dotted_lang by blast
    moreover from parts(3,4) have "\<exists>ls. list_all hostLabel ls \<and> ws = map (\<lambda>x. CHR ''.'' # x) ls"
      by (intro exI conjI)
    then have "set ws \<subseteq> ?D"
      by (simp only: Cons.IH)
    ultimately show "set (w # ws) \<subseteq> ?D"
      by simp
  qed
qed

lemma dotted_plus_lang:
  "t \<in> lang (Plus (Seq (Lit ''.'') (Plus (Class (wordChars @ ''-''))))) \<longleftrightarrow>
     (\<exists>ls. ls \<noteq> [] \<and> list_all hostLabel ls \<and> t = concat (map (\<lambda>x. CHR ''.'' # x) ls))"
  (is "t \<in> lang (Plus ?D) \<longleftrightarrow> ?R")
proof
  assume "t \<in> lang (Plus ?D)"
  then obtain a b where a: "a \<in> lang ?D" and b: "b \<in> star (lang ?D)" and t: "t = a @ b"
    unfolding lang_Plus by blast
  from b obtain ws where ws: "set ws \<subseteq> lang ?D" "b = concat ws"
    unfolding star_concat by blast
  from a ws(1) have "set (a # ws) \<subseteq> lang ?D" by simp
  then obtain ls where ls: "list_all hostLabel ls" "a # ws = map (\<lambda>x. CHR ''.'' # x) ls"
    unfolding dotted_list by (elim exE conjE)
  then have "ls \<noteq> []" by auto
  moreover have "concat (a # ws) = concat (map (\<lambda>x. CHR ''.'' # x) ls)"
    by (simp only: ls(2))
  then have "t = concat (map (\<lambda>x. CHR ''.'' # x) ls)"
    using t ws(2) by simp
  ultimately have "ls \<noteq> [] \<and> list_all hostLabel ls \<and> t = concat (map (\<lambda>x. CHR ''.'' # x) ls)"
    using ls(1) by simp
  then show ?R by (rule exI)
next
  assume ?R
  then obtain ls where ls: "ls \<noteq> []" "list_all hostLabel ls"
    "t = concat (map (\<lambda>x. CHR ''.'' # x) ls)" by (elim exE conjE)
  then obtain l ls' where split: "ls = l # ls'" by (cases ls) auto
  have "\<exists>ks. list_all hostLabel ks \<and> map (\<lambda>x. CHR ''.'' # x) ls = map (\<lambda>x. CHR ''.'' # x) ks"
    using ls(2) by (intro exI [of _ ls]) simp
  then have "set (map (\<lambda>x. CHR ''.'' # x) ls) \<subseteq> lang ?D"
    by (simp only: dotted_list)
  then have "CHR ''.'' # l \<in> lang ?D" "set (map (\<lambda>x. CHR ''.'' # x) ls') \<subseteq> lang ?D"
    using split by simp_all
  then have "CHR ''.'' # l \<in> lang ?D" "concat (map (\<lambda>x. CHR ''.'' # x) ls') \<in> star (lang ?D)"
    unfolding star_concat by blast+
  then have "(CHR ''.'' # l) @ concat (map (\<lambda>x. CHR ''.'' # x) ls') \<in> lang (Plus ?D)"
    unfolding lang_Plus by blast
  then show "t \<in> lang (Plus ?D)"
    using ls(3) split by simp
qed

lemma domainName_lang:
  "domainName h \<longleftrightarrow>
     h \<in> lang (Alt (Lit ''localhost'')
             (Seq (Plus (Class (wordChars @ ''-'')))
                  (Plus (Seq (Lit ''.'') (Plus (Class (wordChars @ ''-'')))))))"
  by (simp only: domainName_def lang_Alt lang_Lit lang_Seq dotted_plus_lang
      hostLabel_lang [symmetric]) blast

lemma portSuffix_lang:
  "portSuffix p \<longleftrightarrow> p \<in> lang (Opt (Seq (Lit '':'') (Plus (Class digitChars))))"
proof -
  have "p \<in> lang (Opt (Seq (Lit '':'') (Plus (Class digitChars)))) \<longleftrightarrow>
      p = [] \<or> (\<exists>a ds. a = '':'' \<and> (ds \<noteq> [] \<and> set ds \<subseteq> set digitChars) \<and> p = a @ ds)"
    by (simp only: lang_Opt lang_Seq lang_Lit lang_Plus_Class)
  also have "\<dots> \<longleftrightarrow> portSuffix p"
    unfolding portSuffix_def by auto
  finally show ?thesis by simp
qed

lemma scheme_lang:
  "s \<in> lang (Seq (Lit ''http'') (Seq (Opt (Lit ''s'')) (Lit ''://''))) \<longleftrightarrow>
     s = ''http://'' \<or> s = ''https://''"
proof -
  have "s \<in> lang (Seq (Lit ''http'') (Seq (Opt (Lit ''s'')) (Lit ''://''))) \<longleftrightarrow>
      (\<exists>a b. a = ''http'' \<and> (\<exists>c d. (c = [] \<or> c = ''s'') \<and> d = ''://'' \<and> b = c @ d) \<and> s = a @ b)"
    by (simp only: lang_Seq lang_Opt lang_Lit)
  also have "\<dots> \<longleftrightarrow> s = ''http://'' \<or> s = ''https://''"
    by auto
  finally show ?thesis .
qed

lemma urlPattern_lang: "u \<in> lang urlPattern \<longleftrightarrow> baseUrlShape u"
proof -
  have "u \<in> lang urlPattern \<longleftrightarrow>
      (\<exists>s t. s \<in> lang (Seq (Lit ''http'') (Seq (Opt (Lit ''s'')) (Lit ''://'')))
         \<and> (\<exists>h p. h \<in> lang (Alt (Lit ''localhost'')
             (Seq (Plus (Class (wordChars @ ''-'')))
                  (Plus (Seq (Lit ''.'') (Plus (Class (wordChars @ ''-'')))))))
         \<and> p \<in> lang (Opt (Seq (Lit '':'') (Plus (Class digitChars)))) \<and> t = h @ p)
         \<and> u = s @ t)"
    unfolding urlPattern_def
    by (rule trans [OF lang_Seq]) (simp only: lang_Seq [of _ "Alt _ _"])
  also have "\<dots> \<longleftrightarrow> baseUrlShape u"
    unfolding baseUrlShape_def scheme_lang domainName_lang [symmetric] portSuffix_lang [symmetric]
    by blast
  finally show ?thesis .
qed

lemma test_urlPattern: "test urlPattern u \<longleftrightarrow> baseUrlShape u"
  by (simp only: test_lang urlPattern_lang)

text \<open>
  C8. A base URL that does not have the shape \<open>http(s)://host[:port]\<close> with nothing
  after it fails the validation of the URL field, and the form is not submitted; a URL of
  that shape raises no issue on the URL field.
\<close>

theorem url_validation:
  "(\<not> baseUrlShape u \<longrightarrow>
      (''url'', ''URL must start with 'http://' or 'https://' followed by a domain name, without any trailing path.'')
         \<in> set (SettingsSchema (d\<lparr>url := u\<rparr>))
      \<and> (\<exists>issues. handleSubmit (d\<lparr>url := u\<rparr>) = Inl issues))
   \<and> (baseUrlShape u \<longrightarrow> ''url'' \<notin> fst ` set (SettingsSchema (d\<lparr>url := u\<rparr>)))"
proof (intro conjI impI)
  assume "\<not> baseUrlShape u"
  then have no_match: "\<not> test urlPattern u"
    by (simp add: test_urlPattern)
  then show "(''url'', ''URL must start with 'http://' or 'https://' followed by a domain name, without any trailing path.'')
         \<in> set (SettingsSchema (d\<lparr>url := u\<rparr>))"
    by (simp add: SettingsSchema_def)
  then show "\<exists>issues. handleSubmit (d\<lparr>url := u\<rparr>) = Inl issues"
    by (cases "SettingsSchema (d\<lparr>url := u\<rparr>)") (auto simp: handleSubmit_def)
next
  assume "baseUrlShape u"
  then have "test urlPattern u"
    by (simp add: test_urlPattern)
  then show "''url'' \<notin> fst ` set (SettingsSchema (d\<lparr>url := u\<rparr>))"
    by (auto simp: SettingsSchema_def split: option.splits)
qed

lemma trailing_path_no_match: "\<not> test urlPattern ''http://localhost:11434/api''"
  by code_simp

lemma single_label_no_match: "\<not> test urlPattern ''http://myserver:8080''"
  by code_simp

lemma preset_matches: "list_all (\<lambda>b. test urlPattern (fst b)) urls"
  by code_simp

theorem url_validation_witness:
  "\<not> baseUrlShape ''http://localhost:11434/api''
   \<and> (\<exists>issues. handleSubmit \<lparr>url = ''http://localhost:11434/api'', apiKey = '''',
                               modelListVariant = Some ''ollama''\<rparr> = Inl issues)
   \<and> \<not> baseUrlShape ''http://myserver:8080''
   \<and> (\<exists>issues. handleSubmit \<lparr>url = ''http://myserver:8080'', apiKey = '''',
                               modelListVariant = Some ''ollama''\<rparr> = Inl issues)
   \<and> baseUrlShape ''http://localhost:11434''
   \<and> ''url'' \<notin> fst ` set (SettingsSchema \<lparr>url = ''http://localhost:11434'', apiKey = '''',
                               modelListVariant = Some ''ollama''\<rparr>)"
proof -
  have bad1: "\<not> baseUrlShape ''http://localhost:11434/api''"
    using trailing_path_no_match by (simp add: test_urlPattern)
  have bad2: "\<not> baseUrlShape ''http://myserver:8080''"
    using single_label_no_match by (simp add: test_urlPattern)
  have "test urlPattern ''http://localhost:11434''"
    using preset_matches by (simp add: urls_def)
  then have good: "baseUrlShape ''http://localhost:11434''"
    by (simp add: test_urlPattern)
  show ?thesis
    using bad1 bad2 good
      url_validation [of "''http://localhost:11434/api''"
        "\<lparr>url = '''', apiKey = '''', modelListVariant = Some ''ollama''\<rparr>"]
      url_validation [of "''http://myserver:8080''"
        "\<lparr>url = '''', apiKey = '''', modelListVariant = Some ''ollama''\<rparr>"]
      url_validation [of "''http://localhost:11434''"
        "\<lparr>url = '''', apiKey = '''', modelListVariant = Some ''ollama''\<rparr>"]
    by simp
qed

section \<open>Model list\<close>

text \<open>
  C4. For the variant \<open>manual\<close> the model list is empty and no call to the backend is
  made, and so it is for every variant that is none of \<open>ollama\<close>, \<open>openai\<close> and
  \<open>manual\<close>. For \<open>ollama\<close> the tags are fetched and each tag is turned into the
  descriptor with the tag's name as id, the object kind \<open>model\<close>, the creation time 0
  and no type; for \<open>openai\<close> the listing call's descriptors are the result. A failed
  call is the failure of the query.
\<close>

theorem model_list_resolution:
  "queryFn api ''manual'' baseUrl token embeddedOnly = ([], Inr [])
   \<and> (v \<noteq> ''ollama'' \<and> v \<noteq> ''openai'' \<and> v \<noteq> ''manual'' \<longrightarrow>
        queryFn api v baseUrl token embeddedOnly = ([], Inr []))
   \<and> queryFn api ''ollama'' baseUrl token embeddedOnly =
        ([GetTag baseUrl embeddedOnly],
         case getTag api baseUrl embeddedOnly of
           Inl err \<Rightarrow> Inl err
         | Inr tags \<Rightarrow>
             Inr (map (\<lambda>t. \<lparr>id' = name' t, object = ''model'', created = 0, type' = None\<rparr>) tags))
   \<and> queryFn api ''openai'' baseUrl token embeddedOnly =
        ([GetModelList baseUrl token embeddedOnly], getModelList api baseUrl token embeddedOnly)"
  by (simp add: queryFn_def)

theorem model_list_resolution_witness:
  "queryFn \<lparr>getTag = (\<lambda>u e. Inr [\<lparr>name' = ''llama3''\<rparr>, \<lparr>name' = ''mistral''\<rparr>]),
            getModelList = (\<lambda>u t e. Inl ''unreachable'')\<rparr>
      ''anthropic'' ''http://localhost:11434'' '''' False = ([], Inr [])
   \<and> queryFn \<lparr>getTag = (\<lambda>u e. Inr [\<lparr>name' = ''llama3''\<rparr>, \<lparr>name' = ''mistral''\<rparr>]),
            getModelList = (\<lambda>u t e. Inl ''unreachable'')\<rparr>
      ''ollama'' ''http://localhost:11434'' '''' False =
        ([GetTag ''http://localhost:11434'' False],
         Inr [\<lparr>id' = ''llama3'', object = ''model'', created = 0, type' = None\<rparr>,
              \<lparr>id' = ''mistral'', object = ''model'', created = 0, type' = None\<rparr>])"
  using model_list_resolution [of
          "\<lparr>getTag = (\<lambda>u e. Inr [\<lparr>name' = ''llama3''\<rparr>, \<lparr>name' = ''mistral''\<rparr>]),
            getModelList = (\<lambda>u t e. Inl ''unreachable'')\<rparr>"
          "''http://localhost:11434''" "''''" False "''anthropic''"]
  by simp

section \<open>Upload page\<close>

lemma readLoop_no_fetch:
  "readLoop s r chunks e = (fx, n, c) \<Longrightarrow> filter isFetch fx = []"
proof (induction chunks arbitrary: r fx n c)
  case Nil
  then show ?case by (cases e) auto
next
  case (Cons v rest)
  obtain fx' n' c' where rec: "readLoop s (r + length v) rest e = (fx', n', c')"
    by (cases "readLoop s (r + length v) rest e") auto
  with Cons.prems have "fx = UpdateProgress (progressStep (r + length v) s) # fx'"
    by (simp add: Let_def)
  moreover from Cons.IH [OF rec] have "filter isFetch fx' = []" .
  ultimately show ?case by simp
qed

lemma networkCalls_onSubmit:
  "networkCalls (onSubmit fetched f) = [Fetch ''/api/documents'' f]"
  by (auto simp: networkCalls_def onSubmit_def tryBlock_def catchBlock_def finallyBlock_def
      split: fetch_result.splits option.splits prod.splits dest: readLoop_no_fetch)

text \<open>
  C5. A selected file that is larger than 30 MB (\<open>30 * 1024 * 1024\<close> bytes) or whose
  type is neither \<open>application/pdf\<close> nor \<open>text/plain\<close> fails validation: the only
  effect is an error on the field \<open>file\<close>, and no network call is made. A pdf or
  plain-text file of at most 30 MB passes validation and is submitted with exactly one
  request to \<open>/api/documents\<close>.
\<close>

theorem upload_validation:
  "(File_size f > 30 * 1024 * 1024 \<or> (type f \<noteq> ''application/pdf'' \<and> type f \<noteq> ''text/plain'') \<longrightarrow>
      (\<exists>msg. onFileSelected fetched f = [FieldError ''file'' msg])
      \<and> networkCalls (onFileSelected fetched f) = []
      \<and> networkCalls (uploadHandleSubmit fetched (IsFile f)) = [])
   \<and> (File_size f \<le> 30 * 1024 * 1024 \<and> (type f = ''application/pdf'' \<or> type f = ''text/plain'') \<longrightarrow>
      formSchema (IsFile f) = []
      \<and> networkCalls (onFileSelected fetched f) = [Fetch ''/api/documents'' f])"
proof (intro conjI impI)
  assume bad: "File_size f > 30 * 1024 * 1024 \<or> (type f \<noteq> ''application/pdf'' \<and> type f \<noteq> ''text/plain'')"
  then obtain m ms where issues: "formSchema (IsFile f) = m # ms"
    by (cases "formSchema (IsFile f)")
       (auto simp: formSchema_def superRefine_def transform_def maxFileSizeMb_def split: if_splits)
  show "\<exists>msg. onFileSelected fetched f = [FieldError ''file'' msg]"
    using issues by (simp add: onFileSelected_def trigger_def)
  show "networkCalls (onFileSelected fetched f) = []"
    using issues by (simp add: onFileSelected_def trigger_def networkCalls_def)
  show "networkCalls (uploadHandleSubmit fetched (IsFile f)) = []"
    using issues by (simp add: uploadHandleSubmit_def networkCalls_def)
next
  assume good: "File_size f \<le> 30 * 1024 * 1024 \<and> (type f = ''application/pdf'' \<or> type f = ''text/plain'')"
  then show valid: "formSchema (IsFile f) = []"
    by (auto simp: formSchema_def superRefine_def transform_def maxFileSizeMb_def)
  have "networkCalls (onFileSelected fetched f) = networkCalls (onSubmit fetched f)"
    using valid
    by (simp add: onFileSelected_def trigger_def uploadHandleSubmit_def transform_def
        networkCalls_def)
  then show "networkCalls (onFileSelected fetched f) = [Fetch ''/api/documents'' f]"
    by (simp add: networkCalls_onSubmit)
qed

theorem upload_validation_witness:
  "onFileSelected Rejects \<lparr>name = ''big.txt'', type = ''text/plain'', content = replicate 31457281 0\<rparr>
     = [FieldError ''file'' ''Max file size allowed is 30MB'']
   \<and> onFileSelected Rejects \<lparr>name = ''a.png'', type = ''image/png'', content = [1, 2, 3]\<rparr>
     = [FieldError ''file'' ''File must be an document (pdf, txt)'']
   \<and> networkCalls (onFileSelected Rejects \<lparr>name = ''a.pdf'', type = ''application/pdf'', content = [1, 2, 3]\<rparr>)
     = [Fetch ''/api/documents'' \<lparr>name = ''a.pdf'', type = ''application/pdf'', content = [1, 2, 3]\<rparr>]"
  using upload_validation [of "\<lparr>name = ''big.txt'', type = ''text/plain'', content = replicate 31457281 0\<rparr>" Rejects]
        upload_validation [of "\<lparr>name = ''a.png'', type = ''image/png'', content = [1, 2, 3]\<rparr>" Rejects]
        upload_validation [of "\<lparr>name = ''a.pdf'', type = ''application/pdf'', content = [1, 2, 3]\<rparr>" Rejects]
  by (simp add: File_size_def onFileSelected_def trigger_def formSchema_def superRefine_def
      transform_def maxFileSizeMb_def)

text \<open>
  C2. Whatever the outcome of the upload (the fetch rejects, the response is not ok, the
  body is missing, a read fails, or the body is read to its end), the submit handler ends
  with the success notification naming the file, the fade-out scheduled after 2000 ms and
  the reset of loading flag, file name, file size and progress scheduled after 3000 ms. In
  particular a rejected fetch is logged and then announced as a success.
\<close>

theorem upload_announces_success:
  "(\<exists>before. onSubmit fetched f =
      before @ [ToastSuccess ''Document uploaded successfully!'' (''File: '' @ name f),
                SetTimeout [SetFadeOut True] 2000,
                SetTimeout [SetFileLoading False, SetFilename '''', SetFilesize 0,
                            UpdateProgress (Finite 0)] 3000])
   \<and> onSubmit Rejects f =
       [SetFileLoading True, SetFilename (name f), SetFilesize (File_size f),
        Fetch ''/api/documents'' f, ConsoleError ''Error uploading file:'',
        ToastSuccess ''Document uploaded successfully!'' (''File: '' @ name f),
        SetTimeout [SetFadeOut True] 2000,
        SetTimeout [SetFileLoading False, SetFilename '''', SetFilesize 0,
                    UpdateProgress (Finite 0)] 3000]"
  by (simp add: onSubmit_def finallyBlock_def tryBlock_def catchBlock_def)

lemma progressStep_2_of_3: "progressStep 2 3 = Finite 67"
  by code_simp

theorem upload_announces_success_witness:
  "onSubmit (Resolves \<lparr>ok = False, reader = None\<rparr>)
      \<lparr>name = ''a.pdf'', type = ''application/pdf'', content = [1, 2, 3]\<rparr>
     = [SetFileLoading True, SetFilename ''a.pdf'', SetFilesize 3,
        Fetch ''/api/documents'' \<lparr>name = ''a.pdf'', type = ''application/pdf'', content = [1, 2, 3]\<rparr>,
        ConsoleError ''Error uploading file:'',
        ToastSuccess ''Document uploaded successfully!'' ''File: a.pdf'',
        SetTimeout [SetFadeOut True] 2000,
        SetTimeout [SetFileLoading False, SetFilename '''', SetFilesize 0,
                    UpdateProgress (Finite 0)] 3000]
   \<and> onSubmit (Resolves \<lparr>ok = True, reader = Some ([[1, 2]], ReadFails)\<rparr>)
      \<lparr>name = ''a.pdf'', type = ''application/pdf'', content = [1, 2, 3]\<rparr>
     = [SetFileLoading True, SetFilename ''a.pdf'', SetFilesize 3,
        Fetch ''/api/documents'' \<lparr>name = ''a.pdf'', type = ''application/pdf'', content = [1, 2, 3]\<rparr>,
        UpdateProgress (Finite 67),
        ConsoleError ''Error uploading file:'',
        ToastSuccess ''Document uploaded successfully!'' ''File: a.pdf'',
        SetTimeout [SetFadeOut True] 2000,
        SetTimeout [SetFileLoading False, SetFilename '''', SetFilesize 0,
                    UpdateProgress (Finite 0)] 3000]"
  using upload_announces_success [of "Resolves \<lparr>ok = False, reader = None\<rparr>"
          "\<lparr>name = ''a.pdf'', type = ''application/pdf'', content = [1, 2, 3]\<rparr>"]
    progressStep_2_of_3
  by (simp add: onSubmit_def tryBlock_def catchBlock_def finallyBlock_def File_size_def
      numeral_2_eq_2 numeral_3_eq_3)

section \<open>Document route\<close>

lemma fold_max_ge: "a \<le> fold max xs (a::nat)"
proof (induction xs arbitrary: a)
  case Nil
  show ?case by simp
next
  case (Cons x xs)
  have "a \<le> max x a" by simp
  also have "\<dots> \<le> fold max xs (max x a)" by (rule Cons.IH)
  finally show ?case by simp
qed

lemma fold_max_ge_elem: "x \<in> set xs \<Longrightarrow> x \<le> fold max xs (a::nat)"
proof (induction xs arbitrary: a)
  case Nil
  then show ?case by simp
next
  case (Cons y ys)
  show ?case
  proof (cases "x = y")
    case True
    have "x \<le> max y a" using True by simp
    also have "\<dots> \<le> fold max ys (max y a)" by (rule fold_max_ge)
    finally show ?thesis by simp
  next
    case False
    with Cons.prems have "x \<in> set ys" by simp
    then show ?thesis using Cons.IH by simp
  qed
qed

lemma nextId_fresh: "r \<in> set (rows t) \<Longrightarrow> fileId r < nextId t"
  using fold_max_ge_elem [of "fileId r" "map fileId (rows t)" "seq t"]
  by (simp add: nextId_def less_Suc_eq_le)

lemma nextId_above_seq: "seq t < nextId t"
  using fold_max_ge [of "seq t" "map fileId (rows t)"]
  by (simp add: nextId_def less_Suc_eq_le)

text \<open>
  C6 (amended). For a request whose body is form data: without a \<open>file\<close> field, or
  with one that is not a file, the response has status 400 and the plain-text body
  \<open>No file uploaded\<close>, and the state is unchanged. With a file, and when the write to
  disk and the insert both succeed, the response has status 200 and streams back exactly
  the bytes received; when the write or the insert fails, the handler throws that error
  and returns no response.
\<close>

theorem POST_responses:
  assumes "formData request = Some fd"
  shows "(case get fd ''file'' of
            Some (FileValue file) \<Rightarrow>
              (if writeFile_io env = Succeeds \<and> insert_io env = Succeeds
               then fst (POST env request st)
                      = Inr \<lparr>status = 200, body = ReadableStream [content file]\<rparr>
                    \<and> bodyBytes (ReadableStream [content file]) = content file
               else fst (POST env request st)
                      = Inl (if writeFile_io env = Fails then WriteError else InsertError))
          | Some (StringValue s) \<Rightarrow>
              POST env request st = (Inr \<lparr>status = 400, body = Text ''No file uploaded''\<rparr>, st)
          | None \<Rightarrow>
              POST env request st = (Inr \<lparr>status = 400, body = Text ''No file uploaded''\<rparr>, st))"
  using assms
  by (cases "writeFile_io env"; cases "insert_io env")
     (simp_all add: POST_def writeFile_def insertFiles_def bodyBytes_def Let_def
       split: option.splits FormDataEntryValue.splits)

theorem POST_responses_witness:
  "POST \<lparr>writeFile_io = Succeeds, insert_io = Succeeds, now = ''2024-05-01 12:00:00''\<rparr>
        \<lparr>formData = Some [(''note'', StringValue ''hello'')]\<rparr>
        \<lparr>uploads = Map.empty, db = \<lparr>rows = [], seq = 0\<rparr>\<rparr>
     = (Inr \<lparr>status = 400, body = Text ''No file uploaded''\<rparr>,
        \<lparr>uploads = Map.empty, db = \<lparr>rows = [], seq = 0\<rparr>\<rparr>)
   \<and> POST \<lparr>writeFile_io = Succeeds, insert_io = Succeeds, now = ''2024-05-01 12:00:00''\<rparr>
        \<lparr>formData = Some [(''file'', StringValue ''a.txt'')]\<rparr>
        \<lparr>uploads = Map.empty, db = \<lparr>rows = [], seq = 0\<rparr>\<rparr>
     = (Inr \<lparr>status = 400, body = Text ''No file uploaded''\<rparr>,
        \<lparr>uploads = Map.empty, db = \<lparr>rows = [], seq = 0\<rparr>\<rparr>)
   \<and> fst (POST \<lparr>writeFile_io = Succeeds, insert_io = Succeeds, now = ''2024-05-01 12:00:00''\<rparr>
        \<lparr>formData = Some [(''file'', FileValue \<lparr>name = ''a.txt'', type = ''text/plain'', content = [104, 105]\<rparr>)]\<rparr>
        \<lparr>uploads = Map.empty, db = \<lparr>rows = [], seq = 0\<rparr>\<rparr>)
     = Inr \<lparr>status = 200, body = ReadableStream [[104, 105]]\<rparr>"
  using POST_responses [of "\<lparr>formData = Some [(''note'', StringValue ''hello'')]\<rparr>"
          "[(''note'', StringValue ''hello'')]"
          "\<lparr>writeFile_io = Succeeds, insert_io = Succeeds, now = ''2024-05-01 12:00:00''\<rparr>"
          "\<lparr>uploads = Map.empty, db = \<lparr>rows = [], seq = 0\<rparr>\<rparr>"]
        POST_responses [of "\<lparr>formData = Some [(''file'', StringValue ''a.txt'')]\<rparr>"
          "[(''file'', StringValue ''a.txt'')]"
          "\<lparr>writeFile_io = Succeeds, insert_io = Succeeds, now = ''2024-05-01 12:00:00''\<rparr>"
          "\<lparr>uploads = Map.empty, db = \<lparr>rows = [], seq = 0\<rparr>\<rparr>"]
        POST_responses [of "\<lparr>formData = Some [(''file'', FileValue \<lparr>name = ''a.txt'', type = ''text/plain'', content = [104, 105]\<rparr>)]\<rparr>"
          "[(''file'', FileValue \<lparr>name = ''a.txt'', type = ''text/plain'', content = [104, 105]\<rparr>)]"
          "\<lparr>writeFile_io = Succeeds, insert_io = Succeeds, now = ''2024-05-01 12:00:00''\<rparr>"
          "\<lparr>uploads = Map.empty, db = \<lparr>rows = [], seq = 0\<rparr>\<rparr>"]
  by (simp add: get_def)

text \<open>
  The specification promises a 200 response for every request that carries a file. When
  the write to \<open>./uploads\<close> fails the handler returns no response at all.
\<close>

theorem POST_write_fails_counterexample:
  "fst (POST \<lparr>writeFile_io = Fails, insert_io = Succeeds, now = ''2024-05-01 12:00:00''\<rparr>
        \<lparr>formData = Some [(''file'', FileValue \<lparr>name = ''a.txt'', type = ''text/plain'', content = [104, 105]\<rparr>)]\<rparr>
        \<lparr>uploads = Map.empty, db = \<lparr>rows = [], seq = 0\<rparr>\<rparr>)
     = Inl WriteError
   \<and> fst (POST \<lparr>writeFile_io = Fails, insert_io = Succeeds, now = ''2024-05-01 12:00:00''\<rparr>
        \<lparr>formData = Some [(''file'', FileValue \<lparr>name = ''a.txt'', type = ''text/plain'', content = [104, 105]\<rparr>)]\<rparr>
        \<lparr>uploads = Map.empty, db = \<lparr>rows = [], seq = 0\<rparr>\<rparr>)
     \<noteq> Inr \<lparr>status = 200, body = ReadableStream [[104, 105]]\<rparr>"
  by (simp add: POST_def get_def writeFile_def)

text \<open>
  C10. Every request that is answered with the streamed file has appended one row to the
  table: its id is the next auto-incremented id, which no row of the table has and which
  exceeds the counter; it carries the file's name and size, is not embedded and has the
  empty embed model. No row is looked up by file name, so a row of the same name may
  already exist. The file at \<open>./uploads/<name>\<close> holds the new bytes, whatever was
  stored there before.
\<close>

theorem POST_inserts_fresh_record:
  assumes "formData request = Some fd"
    and "get fd ''file'' = Some (FileValue file)"
    and "POST env request st = (Inr resp, st')"
  shows "\<exists>row. rows (db st') = rows (db st) @ [row]
           \<and> fileId row = nextId (db st)
           \<and> fileId row \<notin> fileId ` set (rows (db st))
           \<and> seq (db st) < fileId row
           \<and> seq (db st') = fileId row
           \<and> filename row = name file
           \<and> fileSize row = Some (File_size file)
           \<and> timestamp row = now env
           \<and> isEmbedded row = False
           \<and> embedModel row = Some ''''
           \<and> uploads st' = (uploads st)(''./uploads/'' @ name file \<mapsto> content file)"
proof -
  from assms have ok: "writeFile_io env = Succeeds" "insert_io env = Succeeds"
    by (cases "writeFile_io env"; cases "insert_io env";
        simp add: POST_def writeFile_def insertFiles_def Let_def)+
  let ?row = "\<lparr>fileId = nextId (db st), filename = name file, fileSize = Some (File_size file),
                timestamp = now env, isEmbedded = False, embedModel = Some ''''\<rparr>"
  from assms ok have st': "st' = \<lparr>uploads = (uploads st)(''./uploads/'' @ name file \<mapsto> content file),
                         db = \<lparr>rows = rows (db st) @ [?row], seq = nextId (db st)\<rparr>\<rparr>"
    by (simp add: POST_def writeFile_def insertFiles_def Let_def)
  have fresh: "nextId (db st) \<notin> fileId ` set (rows (db st))"
    by (auto dest: nextId_fresh)
  show ?thesis
    using st' fresh nextId_above_seq [of "db st"] by (intro exI [of _ ?row]) simp
qed

theorem POST_inserts_fresh_record_witness:
  "map (\<lambda>r. (fileId r, filename r, isEmbedded r, embedModel r))
     (rows (db (snd (POST
        \<lparr>writeFile_io = Succeeds, insert_io = Succeeds, now = ''2024-05-01 12:00:00''\<rparr>
        \<lparr>formData = Some [(''file'', FileValue \<lparr>name = ''a.txt'', type = ''text/plain'', content = [104, 105]\<rparr>)]\<rparr>
        \<lparr>uploads = [''./uploads/a.txt'' \<mapsto> [1, 2, 3]],
         db = \<lparr>rows = [\<lparr>fileId = 1, filename = ''a.txt'', fileSize = Some 3,
                        timestamp = ''2024-04-30 09:00:00'', isEmbedded = True,
                        embedModel = Some ''nomic-embed-text''\<rparr>], seq = 1\<rparr>\<rparr>))))
     = [(1, ''a.txt'', True, Some ''nomic-embed-text''), (2, ''a.txt'', False, Some '''')]
   \<and> uploads (snd (POST
        \<lparr>writeFile_io = Succeeds, insert_io = Succeeds, now = ''2024-05-01 12:00:00''\<rparr>
        \<lparr>formData = Some [(''file'', FileValue \<lparr>name = ''a.txt'', type = ''text/plain'', content = [104, 105]\<rparr>)]\<rparr>
        \<lparr>uploads = [''./uploads/a.txt'' \<mapsto> [1, 2, 3]],
         db = \<lparr>rows = [\<lparr>fileId = 1, filename = ''a.txt'', fileSize = Some 3,
                        timestamp = ''2024-04-30 09:00:00'', isEmbedded = True,
                        embedModel = Some ''nomic-embed-text''\<rparr>], seq = 1\<rparr>\<rparr>))
       ''./uploads/a.txt'' = Some [104, 105]"
  using POST_inserts_fresh_record [of
          "\<lparr>formData = Some [(''file'', FileValue \<lparr>name = ''a.txt'', type = ''text/plain'', content = [104, 105]\<rparr>)]\<rparr>"
          "[(''file'', FileValue \<lparr>name = ''a.txt'', type = ''text/plain'', content = [104, 105]\<rparr>)]"
          "\<lparr>name = ''a.txt'', type = ''text/plain'', content = [104, 105]\<rparr>"
          "\<lparr>writeFile_io = Succeeds, insert_io = Succeeds, now = ''2024-05-01 12:00:00''\<rparr>"
          "\<lparr>uploads = [''./uploads/a.txt'' \<mapsto> [1, 2, 3]],
            db = \<lparr>rows = [\<lparr>fileId = 1, filename = ''a.txt'', fileSize = Some 3,
                        timestamp = ''2024-04-30 09:00:00'', isEmbedded = True,
                        embedModel = Some ''nomic-embed-text''\<rparr>], seq = 1\<rparr>\<rparr>"
          "\<lparr>status = 200, body = ReadableStream [[104, 105]]\<rparr>"
          "snd (POST
            \<lparr>writeFile_io = Succeeds, insert_io = Succeeds, now = ''2024-05-01 12:00:00''\<rparr>
            \<lparr>formData = Some [(''file'', FileValue \<lparr>name = ''a.txt'', type = ''text/plain'', content = [104, 105]\<rparr>)]\<rparr>
            \<lparr>uploads = [''./uploads/a.txt'' \<mapsto> [1, 2, 3]],
             db = \<lparr>rows = [\<lparr>fileId = 1, filename = ''a.txt'', fileSize = Some 3,
                        timestamp = ''2024-04-30 09:00:00'', isEmbedded = True,
                        embedModel = Some ''nomic-embed-text''\<rparr>], seq = 1\<rparr>\<rparr>)"]
  by (simp add: POST_def get_def writeFile_def insertFiles_def nextId_def File_size_def Let_def)

section \<open>Upload round trip\<close>

subsection \<open>The number model\<close>

text \<open>
  The exponent that \<open>round_double\<close> works with is the binary exponent of its argument,
  and rounding to an integer moves a number by at most one half. On \<open>7 / 100\<close> the
  progress computation yields the double next above 7, as IEEE 754 arithmetic does
  (\<open>0.07 * 100 = 7.000000000000001\<close>).
\<close>

lemma bit_length_nonneg: "0 \<le> bit_length n"
proof (induction n rule: bit_length.induct)
  case (1 n)
  show ?case
  proof (cases "n \<le> 0")
    case True
    then show ?thesis by (subst bit_length.simps) simp
  next
    case False
    with "1.IH" have "0 \<le> bit_length (n div 2)" by simp
    with False show ?thesis by (subst bit_length.simps) simp
  qed
qed

lemma bit_length_bounds:
  "0 < n \<Longrightarrow> 2 ^ nat (bit_length n - 1) \<le> n \<and> n < 2 ^ nat (bit_length n)"
proof (induction n rule: bit_length.induct)
  case (1 n)
  have nn: "\<not> n \<le> 0" using "1.prems" by simp
  have bl: "bit_length n = 1 + bit_length (n div 2)"
    using nn by (subst bit_length.simps) simp
  show ?case
  proof (cases "n = 1")
    case True
    then show ?thesis
      by (simp add: bit_length.simps [of 1] bit_length.simps [of 0])
  next
    case False
    with "1.prems" have pos: "0 < n div 2" by simp
    from "1.IH" [OF nn pos]
    have ih: "2 ^ nat (bit_length (n div 2) - 1) \<le> n div 2" "n div 2 < 2 ^ nat (bit_length (n div 2))"
      by simp_all
    have "bit_length (n div 2) = 1 + bit_length (n div 2 div 2)"
      using pos by (subst bit_length.simps) simp
    then have bpos: "0 < bit_length (n div 2)"
      using bit_length_nonneg [of "n div 2 div 2"] by simp
    have e1: "nat (bit_length n - 1) = Suc (nat (bit_length (n div 2) - 1))"
      using bl bpos by simp
    have e2: "nat (bit_length n) = Suc (nat (bit_length (n div 2)))"
      using bl bpos by simp
    show ?thesis
      unfolding e1 e2 using ih by simp linarith
  qed
qed

lemma bit_length_pos: "0 < n \<Longrightarrow> 0 < bit_length n"
proof -
  assume "0 < n"
  then have "bit_length n = 1 + bit_length (n div 2)"
    by (subst bit_length.simps) simp
  then show ?thesis
    using bit_length_nonneg [of "n div 2"] by simp
qed

lemma bit_length_rat:
  assumes "0 < n"
  shows "\<exists>k. bit_length n = int k + 1 \<and> (2::rat) ^ k \<le> of_int n \<and> (of_int n :: rat) < 2 ^ (k + 1)"
proof -
  define k where "k = nat (bit_length n - 1)"
  have len: "bit_length n = int k + 1"
    using bit_length_pos [OF assms] by (simp add: k_def)
  then have "nat (bit_length n) = k + 1"
    by simp
  with bit_length_bounds [OF assms] have "2 ^ k \<le> n" "n < 2 ^ (k + 1)"
    by (simp_all add: k_def)
  then have "(of_int (2 ^ k) :: rat) \<le> of_int n" "(of_int n :: rat) < of_int (2 ^ (k + 1))"
    by (simp_all only: of_int_le_iff of_int_less_iff)
  then have "(2::rat) ^ k \<le> of_int n" "(of_int n :: rat) < 2 ^ (k + 1)"
    by simp_all
  with len show ?thesis by blast
qed

lemma floor_log2_bounds:
  assumes "0 < x"
  shows "2 powi floor_log2 x \<le> x \<and> x < 2 powi (floor_log2 x + 1)"
proof -
  obtain p q where pq: "quotient_of x = (p, q)"
    by (cases "quotient_of x") auto
  then have q: "0 < q" and x: "x = of_int p / of_int q"
    using quotient_of_denom_pos [OF pq] quotient_of_div [OF pq] by simp_all
  with assms have p: "0 < p"
    by (simp add: zero_less_divide_iff)
  from bit_length_rat [OF p] obtain i where
    i: "bit_length p = int i + 1" "(2::rat) ^ i \<le> of_int p" "(of_int p :: rat) < 2 ^ (i + 1)"
    by blast
  from bit_length_rat [OF q] obtain j where
    j: "bit_length q = int j + 1" "(2::rat) ^ j \<le> of_int q" "(of_int q :: rat) < 2 ^ (j + 1)"
    by blast
  define d where "d = int i - int j"
  have upper: "x < 2 powi (d + 1)"
  proof -
    have "of_int p / of_int q < (2::rat) ^ (i + 1) / 2 ^ j"
      using i(3) j(2) p by (intro frac_less) simp_all
    also have "\<dots> = 2 powi (int (i + 1) - int j)"
      by (subst power_int_diff) (simp_all only: power_int_of_nat, simp)
    also have "int (i + 1) - int j = d + 1"
      by (simp add: d_def)
    finally show ?thesis by (simp only: x)
  qed
  have lower: "2 powi (d - 1) < x"
  proof -
    have "(2::rat) ^ i / 2 ^ (j + 1) < of_int p / of_int q"
      using i(2) j(3) q by (intro frac_less2) simp_all
    moreover have "(2::rat) ^ i / 2 ^ (j + 1) = 2 powi (int i - int (j + 1))"
      by (subst power_int_diff) (simp_all only: power_int_of_nat, simp)
    moreover have "int i - int (j + 1) = d - 1"
      by (simp add: d_def)
    ultimately show ?thesis by (simp only: x)
  qed
  have fl: "floor_log2 x = (if 2 powi d \<le> x then d else d - 1)"
    by (simp add: floor_log2_def pq i(1) j(1) d_def)
  show ?thesis
  proof (cases "2 powi d \<le> x")
    case True
    with fl upper show ?thesis by simp
  next
    case False
    with fl lower show ?thesis by simp
  qed
qed

lemma round_half_even_near: "\<bar>of_int (round_half_even m) - m\<bar> \<le> 1 / 2"
proof -
  have "of_int \<lfloor>m\<rfloor> \<le> m" "m < of_int \<lfloor>m\<rfloor> + 1"
    by linarith+
  then show ?thesis
    by (auto simp: round_half_even_def Let_def)
qed

lemma progressStep_7_of_100: "progressStep 7 100 = Finite (7 + 1 / 2 ^ 50)"
  by code_simp

subsection \<open>Progress of a complete upload\<close>

lemma round_double_1: "round_double 1 = Finite 1"
  by code_simp

lemma progress_of_one: "times100 (parseFloat (toFixed2 (Finite 1))) = Finite 100"
  by code_simp

lemma progressStep_complete:
  assumes "0 < n"
  shows "progressStep n n = Finite 100"
proof -
  have "(of_nat n :: rat) / of_nat n = 1"
    using assms by simp
  then have "divide_counts n n = Finite 1"
    using assms by (simp add: divide_counts_def round_double_1)
  then show ?thesis
    by (simp add: progressStep_def progress_of_one)
qed

lemma readLoop_effects:
  "fst (readLoop s r chunks e) =
     map (\<lambda>i. UpdateProgress (progressStep (r + length (concat (take (Suc i) chunks))) s))
       [0..<length chunks]"
proof (induction chunks arbitrary: r)
  case Nil
  show ?case by (cases e) simp_all
next
  case (Cons v rest)
  have "fst (readLoop s r (v # rest) e) =
          UpdateProgress (progressStep (r + length v) s) # fst (readLoop s (r + length v) rest e)"
    by (simp add: Let_def split: prod.splits)
  also have "fst (readLoop s (r + length v) rest e) =
          map (\<lambda>i. UpdateProgress (progressStep (r + length v + length (concat (take (Suc i) rest))) s))
            [0..<length rest]"
    by (rule Cons.IH)
  finally show ?case
    by (simp add: upt_conv_Cons map_Suc_upt [symmetric] add.assoc del: upt_Suc)
qed

lemma readLoop_received:
  "fst (snd (readLoop s r chunks e)) = r + length (concat chunks)"
proof (induction chunks arbitrary: r)
  case Nil
  show ?case by (cases e) simp_all
next
  case (Cons v rest)
  have "fst (snd (readLoop s r (v # rest) e)) = fst (snd (readLoop s (r + length v) rest e))"
    by (simp add: Let_def split: prod.splits)
  then show ?case
    by (simp add: Cons.IH)
qed

lemma readLoop_completion:
  "snd (snd (readLoop s r chunks e)) = (case e of Done \<Rightarrow> Normal | ReadFails \<Rightarrow> Throw)"
proof (induction chunks arbitrary: r)
  case Nil
  show ?case by (cases e) simp_all
next
  case (Cons v rest)
  have "snd (snd (readLoop s r (v # rest) e)) = snd (snd (readLoop s (r + length v) rest e))"
    by (simp add: Let_def split: prod.splits)
  then show ?case
    by (simp add: Cons.IH)
qed

text \<open>
  C9. When a file of positive size is uploaded and the route answers with a response, the
  bytes of the response body are exactly the bytes uploaded. Whatever the chunks in which
  the page receives them, the loop over the reader ends normally with
  \<open>receivedLength\<close> equal to the file's size; the progress value of each chunk is
  \<open>parseFloat((receivedLength / fileSize).toFixed(2)) * 100\<close> for the bytes received so
  far, there is at least one, and the last one is exactly 100.
\<close>

theorem upload_round_trip:
  assumes positive: "0 < File_size f"
    and served: "POST env \<lparr>formData = Some [(''file'', FileValue f)]\<rparr> st = (Inr resp, st')"
    and delivered: "delivers resp fr"
  shows "bodyBytes (body resp) = content f
   \<and> (\<exists>chunks fx.
        reader fr = Some (chunks, Done) \<and> concat chunks = content f
        \<and> readLoop (File_size f) 0 chunks Done = (fx, File_size f, Normal)
        \<and> fx = map (\<lambda>i. UpdateProgress
                    (times100 (parseFloat (toFixed2
                       (divide_counts (length (concat (take (Suc i) chunks))) (File_size f))))))
                 [0..<length chunks]
        \<and> fx \<noteq> [] \<and> last fx = UpdateProgress (Finite 100)
        \<and> onSubmit (Resolves fr) f =
            [SetFileLoading True, SetFilename (name f), SetFilesize (File_size f),
             Fetch ''/api/documents'' f] @ fx @ finallyBlock f)"
proof -
  from served have resp: "resp = \<lparr>status = 200, body = ReadableStream [content f]\<rparr>"
    by (cases "writeFile_io env"; cases "insert_io env")
       (auto simp: POST_def get_def writeFile_def insertFiles_def Let_def)
  then have bytes: "bodyBytes (body resp) = content f"
    by (simp add: bodyBytes_def)
  from delivered resp have ok: "ok fr"
    by (simp add: delivers_def)
  from delivered bytes obtain chunks where
    chunks: "reader fr = Some (chunks, Done)" "concat chunks = content f"
    by (auto simp: delivers_def split: option.splits)
  define fx where "fx = fst (readLoop (File_size f) 0 chunks Done)"
  have total: "length (concat chunks) = File_size f"
    using chunks by (simp add: File_size_def)
  have loop: "readLoop (File_size f) 0 chunks Done = (fx, File_size f, Normal)"
    using readLoop_received [of "File_size f" 0 chunks Done]
      readLoop_completion [of "File_size f" 0 chunks Done] total
    by (cases "readLoop (File_size f) 0 chunks Done") (simp add: fx_def)
  have steps: "fx = map (\<lambda>i. UpdateProgress
                    (times100 (parseFloat (toFixed2
                       (divide_counts (length (concat (take (Suc i) chunks))) (File_size f))))))
                 [0..<length chunks]"
    using readLoop_effects [of "File_size f" 0 chunks Done]
    by (simp add: fx_def progressStep_def)
  have nonempty: "chunks \<noteq> []"
    using positive total by auto
  then have fx_nonempty: "fx \<noteq> []"
    using steps by simp
  have "last fx = UpdateProgress (progressStep (length (concat chunks)) (File_size f))"
    using nonempty steps by (simp add: last_map progressStep_def)
  then have final: "last fx = UpdateProgress (Finite 100)"
    using positive by (simp add: total progressStep_complete)
  have trace: "onSubmit (Resolves fr) f =
      [SetFileLoading True, SetFilename (name f), SetFilesize (File_size f),
       Fetch ''/api/documents'' f] @ fx @ finallyBlock f"
    using ok chunks loop by (simp add: onSubmit_def tryBlock_def)
  show ?thesis
    using bytes chunks loop steps fx_nonempty final trace by blast
qed

theorem upload_round_trip_witness:
  "onSubmit (Resolves \<lparr>ok = True, reader = Some ([[104, 105], [33]], Done)\<rparr>)
      \<lparr>name = ''a.txt'', type = ''text/plain'', content = [104, 105, 33]\<rparr>
     = [SetFileLoading True, SetFilename ''a.txt'', SetFilesize 3,
        Fetch ''/api/documents'' \<lparr>name = ''a.txt'', type = ''text/plain'', content = [104, 105, 33]\<rparr>,
        UpdateProgress (Finite 67), UpdateProgress (Finite 100),
        ToastSuccess ''Document uploaded successfully!'' ''File: a.txt'',
        SetTimeout [SetFadeOut True] 2000,
        SetTimeout [SetFileLoading False, SetFilename '''', SetFilesize 0,
                    UpdateProgress (Finite 0)] 3000]"
proof -
  let ?f = "\<lparr>name = ''a.txt'', type = ''text/plain'', content = [104, 105, 33]\<rparr>"
  let ?env = "\<lparr>writeFile_io = Succeeds, insert_io = Succeeds, now = ''2024-05-01 12:00:00''\<rparr>"
  let ?st = "\<lparr>uploads = Map.empty, db = \<lparr>rows = [], seq = 0\<rparr>\<rparr>"
  let ?resp = "\<lparr>status = 200, body = ReadableStream [[104, 105, 33]]\<rparr>"
  let ?fr = "\<lparr>ok = True, reader = Some ([[104, 105], [33]], Done)\<rparr>"
  have positive: "0 < File_size ?f"
    by (simp add: File_size_def)
  have served: "POST ?env \<lparr>formData = Some [(''file'', FileValue ?f)]\<rparr> ?st =
      (Inr ?resp, snd (POST ?env \<lparr>formData = Some [(''file'', FileValue ?f)]\<rparr> ?st))"
    by (simp add: POST_def get_def writeFile_def insertFiles_def Let_def)
  have delivered: "delivers ?resp ?fr"
    by (simp add: delivers_def bodyBytes_def)
  from upload_round_trip [OF positive served delivered]
  obtain fx where trace: "onSubmit (Resolves ?fr) ?f =
        [SetFileLoading True, SetFilename (name ?f), SetFilesize (File_size ?f),
         Fetch ''/api/documents'' ?f] @ fx @ finallyBlock ?f"
    and fx: "fx = map (\<lambda>i. UpdateProgress
                    (times100 (parseFloat (toFixed2
                       (divide_counts (length (concat (take (Suc i) [[104, 105], [33::byte]])))
                          (File_size ?f))))))
                 [0..<length [[104, 105], [33::byte]]]"
    and final: "last fx = UpdateProgress (Finite 100)"
    by auto
  have "fx = [UpdateProgress (progressStep 2 3), UpdateProgress (progressStep 3 3)]"
    using fx by (simp add: File_size_def progressStep_def upt_conv_Cons numeral_2_eq_2 numeral_3_eq_3)
  moreover from this final have "progressStep 3 3 = Finite 100"
    by simp
  ultimately have "fx = [UpdateProgress (Finite 67), UpdateProgress (Finite 100)]"
    by (simp add: progressStep_2_of_3)
  with trace show ?thesis
    by (simp add: finallyBlock_def File_size_def)
qed

end
